theory Spec2Isabelle
  imports Main "HOL-Library.Sublist"
begin

section \<open>The conversational loop controller (backend/ai\_generator.py)\<close>

subsection \<open>Data model\<close>

text \<open>
  Tool arguments are a keyword mapping (\<^verbatim>\<open>content_block.input\<close>); the retrieval tool takes
  string and integer arguments.
\<close>

datatype arg_value = StrArg string | IntArg int

type_synonym tool_input = "(string \<times> arg_value) list"

text \<open>
  A content block of a model response is a text block (it has \<^verbatim>\<open>.text\<close>) or a tool-use
  directive (\<^verbatim>\<open>.id\<close>, \<^verbatim>\<open>.name\<close>, \<^verbatim>\<open>.input\<close>, in this order below). The test
  \<^verbatim>\<open>content_block.type == "tool_use"\<close> is the test for the second constructor.
\<close>

datatype content_block =
    TextBlock string
  | ToolUseBlock string string tool_input

record response =
  stop_reason :: string
  content :: "content_block list"

text \<open>The dictionary \<^verbatim>\<open>{"type": "tool_result", "tool_use_id": ..., "content": ...}\<close>.\<close>

record tool_result =
  result_type :: string
  tool_use_id :: string
  result_content :: string

datatype msg_role = User | Assistant

datatype message_content =
    Text string
  | Blocks "content_block list"
  | ToolResults "tool_result list"

record message =
  role :: msg_role
  msg_content :: message_content

record tool_def =
  tool_name :: string
  description :: string
  required :: "string list"

text \<open>
  The keyword arguments of \<^verbatim>\<open>client.messages.create\<close>. The keys \<^verbatim>\<open>tools\<close> and
  \<^verbatim>\<open>tool_choice\<close> may be absent (\<open>None\<close>); \<^verbatim>\<open>{"type": "auto"}\<close> is \<open>Some ''auto''\<close>.
\<close>

record api_params =
  model :: string
  temperature :: int
  max_tokens :: int
  messages :: "message list"
  system :: string
  tools :: "tool_def list option"
  tool_choice :: "string option"

text \<open>
  Exceptions that can leave \<^verbatim>\<open>generate_response\<close>: a failure of the model backend, and the
  two failures of the read \<^verbatim>\<open>response.content[0].text\<close>.
\<close>

datatype exn = BackendError string | IndexError | AttributeError

text \<open>
  The two collaborators are outside the repository. Each call to one of them is recorded,
  with its outcome, in the trace of the invocation; what a collaborator answers may depend
  on everything that happened before, so it is a function of the trace so far. A tool
  execution either returns text (\<open>Inr\<close>) or raises an \<^verbatim>\<open>Exception\<close> whose \<^verbatim>\<open>str\<close> is the
  given message (\<open>Inl\<close>).
\<close>

datatype event =
    ModelCall api_params "exn + response"
  | ToolCall string tool_input "string + string"

type_synonym client = "event list \<Rightarrow> api_params \<Rightarrow> exn + response"

type_synonym tool_manager = "event list \<Rightarrow> string \<Rightarrow> tool_input \<Rightarrow> string + string"

record ai_generator =
  client :: client
  self_model :: string

subsection \<open>Constants\<close>

definition MAX_TOOL_ROUNDS :: nat where
  "MAX_TOOL_ROUNDS = 2"

definition nl :: string where
  "nl = [CHR 0x0A]"

text \<open>The em dash of the source text, as its three UTF-8 bytes.\<close>

definition em_dash :: string where
  "em_dash = [CHR 0xE2, CHR 0x80, CHR 0x94]"

definition dq :: string where
  "dq = [CHR 0x22]"

definition SYSTEM_PROMPT :: string where
  "SYSTEM_PROMPT = concat (map (\<lambda>l. l @ nl)
    [ '' You are an AI assistant specialized in course materials and educational content with access to a comprehensive search tool for course information.'',
      '''',
      ''Search Tool Usage:'',
      ''- Use the search tool **only** for questions about specific course content or detailed educational materials'',
      ''- Use the `get_course_outline` tool when asked for a course outline, structure, lesson list, or available lessons '' @ em_dash @ '' it returns the course title, link, and complete numbered lesson list'',
      ''- **Up to 2 tool calls per query** '' @ em_dash @ '' use a second tool call only when the first result reveals you need additional or more targeted information to fully answer the question'',
      ''- Synthesize search results into accurate, fact-based responses'',
      ''- If search yields no results, state this clearly without offering alternatives'',
      '''',
      ''Response Protocol:'',
      ''- **General knowledge questions**: Answer using existing knowledge without searching'',
      ''- **Course-specific questions**: Search first, then answer'',
      ''- **No meta-commentary**:'',
      '' - Provide direct answers only '' @ em_dash @ '' no reasoning process, search explanations, or question-type analysis'',
      '' - Do not mention '' @ dq @ ''based on the search results'' @ dq,
      '''',
      '''',
      ''All responses must be:'',
      ''1. **Brief, Concise and focused** - Get to the point quickly'',
      ''2. **Educational** - Maintain instructional value'',
      ''3. **Clear** - Use accessible language'',
      ''4. **Example-supported** - Include relevant examples when they aid understanding'',
      ''Provide only the direct answer to what was asked.'' ])"

text \<open>\<^verbatim>\<open>self.base_params\<close>; the keys a request adds on top are filled in by the callers.\<close>

definition base_params :: "ai_generator \<Rightarrow> api_params" where
  "base_params self =
     \<lparr> model = self_model self, temperature = 0, max_tokens = 800,
       messages = [], system = [], tools = None, tool_choice = None \<rparr>"

subsection \<open>Operations\<close>

text \<open>
  \<^verbatim>\<open>response.content[0].text\<close>: an empty content list raises \<^verbatim>\<open>IndexError\<close>, a first block
  that is a tool-use directive has no \<^verbatim>\<open>text\<close> attribute.
\<close>

definition first_text :: "response \<Rightarrow> exn + string" where
  "first_text r =
     (case content r of
        [] \<Rightarrow> Inl IndexError
      | TextBlock t # bs \<Rightarrow> Inr t
      | ToolUseBlock i n inp # bs \<Rightarrow> Inl AttributeError)"

text \<open>\<^verbatim>\<open>self.client.messages.create(**params)\<close>: the call is appended to the trace.\<close>

definition messages_create ::
  "client \<Rightarrow> api_params \<Rightarrow> event list \<Rightarrow> (exn + response) \<times> event list" where
  "messages_create c params tr = (c tr params, tr @ [ModelCall params (c tr params)])"

text \<open>
  The body of the loop of \<^verbatim>\<open>_execute_tool_calls\<close>, with its two local variables
  \<^verbatim>\<open>tool_results\<close> and \<^verbatim>\<open>had_error\<close> and the trace as accumulators.
\<close>

fun execute_blocks ::
  "tool_manager \<Rightarrow> content_block list \<Rightarrow> tool_result list \<Rightarrow> bool \<Rightarrow> event list
     \<Rightarrow> tool_result list \<times> bool \<times> event list" where
  "execute_blocks tm [] tool_results had_error tr = (tool_results, had_error, tr)"
| "execute_blocks tm (TextBlock t # bs) tool_results had_error tr =
     execute_blocks tm bs tool_results had_error tr"
| "execute_blocks tm (ToolUseBlock i n inp # bs) tool_results had_error tr =
     (case tm tr n inp of
        Inr tool_result \<Rightarrow>
          execute_blocks tm bs
            (tool_results @
               [\<lparr> result_type = ''tool_result'', tool_use_id = i, result_content = tool_result \<rparr>])
            had_error
            (tr @ [ToolCall n inp (Inr tool_result)])
      | Inl e \<Rightarrow>
          execute_blocks tm bs
            (tool_results @
               [\<lparr> result_type = ''tool_result'', tool_use_id = i,
                  result_content = ''Tool execution error: '' @ e \<rparr>])
            True
            (tr @ [ToolCall n inp (Inl e)]))"

definition execute_tool_calls ::
  "response \<Rightarrow> tool_manager \<Rightarrow> event list \<Rightarrow> tool_result list \<times> bool \<times> event list" where
  "execute_tool_calls response tm tr = execute_blocks tm (content response) [] False tr"

text \<open>
  How the \<^verbatim>\<open>for\<close> loop of \<^verbatim>\<open>generate_response\<close> is left: by a \<^verbatim>\<open>return\<close> (or an exception
  of the backend) inside the body, by running out of rounds, or by the \<^verbatim>\<open>break\<close> after a
  tool failure.
\<close>

datatype loop_exit = Finished "exn + string" | RoundsExhausted | ToolFailure

text \<open>
  The loop, with the number of rounds still to run. \<^verbatim>\<open>api_params\<close> keeps the tool catalog
  from round to round; only its \<^verbatim>\<open>messages\<close> change. The test
  \<^verbatim>\<open>response.stop_reason != "tool_use" or not tool_manager\<close> is split in two: a missing tool
  manager (\<open>None\<close>) returns, and so does any other stop reason.
\<close>

fun tool_rounds ::
  "client \<Rightarrow> tool_manager option \<Rightarrow> api_params \<Rightarrow> nat \<Rightarrow> message list \<Rightarrow> event list
     \<Rightarrow> loop_exit \<times> message list \<times> event list" where
  "tool_rounds c tool_manager ap 0 msgs tr = (RoundsExhausted, msgs, tr)"
| "tool_rounds c tool_manager ap (Suc n) msgs tr =
     (case messages_create c (ap\<lparr>messages := msgs\<rparr>) tr of
        (Inl e, tr1) \<Rightarrow> (Finished (Inl e), msgs, tr1)
      | (Inr response, tr1) \<Rightarrow>
          (case tool_manager of
             None \<Rightarrow> (Finished (first_text response), msgs, tr1)
           | Some tm \<Rightarrow>
               if stop_reason response \<noteq> ''tool_use''
               then (Finished (first_text response), msgs, tr1)
               else
                 (case execute_tool_calls response tm tr1 of
                    (tool_results, had_error, tr2) \<Rightarrow>
                      (let msgs' = msgs @
                             [\<lparr> role = Assistant, msg_content = Blocks (content response) \<rparr>,
                              \<lparr> role = User, msg_content = ToolResults tool_results \<rparr>]
                       in if had_error then (ToolFailure, msgs', tr2)
                          else tool_rounds c tool_manager ap n msgs' tr2))))"

text \<open>
  The system directive: \<^verbatim>\<open>if conversation_history\<close> is false for \<^verbatim>\<open>None\<close> and for the
  empty string.
\<close>

definition system_content :: "string option \<Rightarrow> string" where
  "system_content conversation_history =
     (case conversation_history of
        None \<Rightarrow> SYSTEM_PROMPT
      | Some h \<Rightarrow>
          if h = [] then SYSTEM_PROMPT
          else SYSTEM_PROMPT @ nl @ nl @ ''Previous conversation:'' @ nl @ h)"

text \<open>The request parameters of the loop: \<^verbatim>\<open>if tools\<close> is false for \<^verbatim>\<open>None\<close> and \<^verbatim>\<open>[]\<close>.\<close>

definition loop_params ::
  "ai_generator \<Rightarrow> string \<Rightarrow> string option \<Rightarrow> tool_def list option \<Rightarrow> api_params" where
  "loop_params self query conversation_history tools_arg =
     (let api_params = (base_params self)
            \<lparr> messages := [\<lparr> role = User, msg_content = Text query \<rparr>],
              system := system_content conversation_history \<rparr>
      in case tools_arg of
           None \<Rightarrow> api_params
         | Some ts \<Rightarrow>
             if ts = [] then api_params
             else api_params\<lparr> tools := Some ts, tool_choice := Some ''auto'' \<rparr>)"

definition final_params :: "ai_generator \<Rightarrow> string option \<Rightarrow> message list \<Rightarrow> api_params" where
  "final_params self conversation_history msgs =
     (base_params self)\<lparr> messages := msgs, system := system_content conversation_history \<rparr>"

text \<open>
  \<^verbatim>\<open>generate_response\<close>: its result (the returned text, or the exception that leaves it) and
  the trace of the calls it made.
\<close>

definition generate_response ::
  "ai_generator \<Rightarrow> string \<Rightarrow> string option \<Rightarrow> tool_def list option \<Rightarrow> tool_manager option
     \<Rightarrow> (exn + string) \<times> event list" where
  "generate_response self query conversation_history tools_arg tool_manager =
     (case tool_rounds (client self) tool_manager
             (loop_params self query conversation_history tools_arg) MAX_TOOL_ROUNDS
             [\<lparr> role = User, msg_content = Text query \<rparr>] [] of
        (Finished r, msgs, tr) \<Rightarrow> (r, tr)
      | (ex, msgs, tr) \<Rightarrow>
          (case messages_create (client self) (final_params self conversation_history msgs) tr of
             (Inl e, tr') \<Rightarrow> (Inl e, tr')
           | (Inr final_response, tr') \<Rightarrow> (first_text final_response, tr')))"

subsection \<open>Reading a trace\<close>

text \<open>The model requests of a trace, oldest first, each with what the backend answered.\<close>

fun model_calls :: "event list \<Rightarrow> (api_params \<times> (exn + response)) list" where
  "model_calls [] = []"
| "model_calls (ModelCall p out # evs) = (p, out) # model_calls evs"
| "model_calls (ToolCall n inp out # evs) = model_calls evs"

text \<open>The tool executions of a trace, oldest first: name, arguments and outcome.\<close>

fun tool_calls :: "event list \<Rightarrow> (string \<times> tool_input \<times> (string + string)) list" where
  "tool_calls [] = []"
| "tool_calls (ModelCall p out # evs) = tool_calls evs"
| "tool_calls (ToolCall n inp out # evs) = (n, inp, out) # tool_calls evs"

text \<open>The tool-use blocks of a response content, in block order: id, name and arguments.\<close>

fun tool_uses :: "content_block list \<Rightarrow> (string \<times> string \<times> tool_input) list" where
  "tool_uses [] = []"
| "tool_uses (TextBlock t # bs) = tool_uses bs"
| "tool_uses (ToolUseBlock i n inp # bs) = (i, n, inp) # tool_uses bs"

text \<open>
  The tool result that \<^verbatim>\<open>_execute_tool_calls\<close> builds for the block with id \<open>i\<close> from the
  outcome of its execution: the tool's text, or the exception's message behind the marker.
\<close>

definition render :: "string \<Rightarrow> string + string \<Rightarrow> tool_result" where
  "render i out =
     \<lparr> result_type = ''tool_result'', tool_use_id = i,
       result_content = (case out of Inr t \<Rightarrow> t | Inl e \<Rightarrow> ''Tool execution error: '' @ e) \<rparr>"

text \<open>The two messages a tool round appends (lines 92 and 93 of the source).\<close>

definition round_messages :: "response \<Rightarrow> tool_result list \<Rightarrow> message list" where
  "round_messages r rs =
     [\<lparr> role = Assistant, msg_content = Blocks (content r) \<rparr>,
      \<lparr> role = User, msg_content = ToolResults rs \<rparr>]"

text \<open>A message sequence whose roles alternate, starting with the given one.\<close>

fun other_role :: "msg_role \<Rightarrow> msg_role" where
  "other_role User = Assistant"
| "other_role Assistant = User"

fun alternates_from :: "msg_role \<Rightarrow> message list \<Rightarrow> bool" where
  "alternates_from r [] = True"
| "alternates_from r (m # ms) = (role m = r \<and> alternates_from (other_role r) ms)"

text \<open>
  Two consecutive model requests of an invocation: the second carries the messages of the
  first and the two messages of the round between them, the tool results bearing the ids
  of the tool-use blocks of the first response. A chain is a non-empty list of requests
  linked in this way that starts from the given messages.
\<close>

definition round_step ::
  "api_params \<times> (exn + response) \<Rightarrow> api_params \<times> (exn + response) \<Rightarrow> bool" where
  "round_step a b =
     (\<exists>r rs. snd a = Inr r \<and> messages (fst b) = messages (fst a) @ round_messages r rs
        \<and> map tool_use_id rs = map fst (tool_uses (content r)))"

definition chain :: "message list \<Rightarrow> (api_params \<times> (exn + response)) list \<Rightarrow> bool" where
  "chain ms xs = (xs \<noteq> [] \<and> messages (fst (hd xs)) = ms \<and> successively round_step xs)"

section \<open>The retrieval tool (search\_tools.py, not among the sources)\<close>

subsection \<open>Decimal numerals\<close>

text \<open>\<^verbatim>\<open>str(n)\<close> for an integer, as the labels and messages below need it.\<close>

definition digit_char :: "nat \<Rightarrow> char" where
  "digit_char d = ''0123456789'' ! d"

function show_nat :: "nat \<Rightarrow> string" where
  "show_nat n = (if n < 10 then [digit_char n] else show_nat (n div 10) @ [digit_char (n mod 10)])"
  by pat_completeness auto
termination
  by (relation "measure id") auto

declare show_nat.simps [simp del]

definition show_int :: "int \<Rightarrow> string" where
  "show_int i = (if i < 0 then ''-'' @ show_nat (nat (- i)) else show_nat (nat i))"

subsection \<open>Data model\<close>

text \<open>
  Modelled from the spec: the metadata of a matched chunk, \<^verbatim>\<open>{course_title, lesson_number?}\<close>
  (section 6); the class that produces it is not among the sources.
\<close>

record chunk_meta =
  course_title :: string
  lesson_number :: "int option"

text \<open>
  Modelled from the spec: the answer of the retrieval store's \<^verbatim>\<open>search\<close>, either an error
  condition with its message or the ranked matched chunks, each a text with its metadata
  (sections 1 and 6). The distances are left out: the tool does not read them.
\<close>

datatype search_results =
    StoreError string
  | Matches "(string \<times> chunk_meta) list"

text \<open>
  Modelled from the spec: the retrieval store, an external collaborator with the two
  operations \<^verbatim>\<open>search(query, course_name?, lesson_number?)\<close> and
  \<^verbatim>\<open>get_lesson_link(course_title, lesson_number)\<close> (section 6).
\<close>

record vector_store =
  search :: "string \<Rightarrow> string option \<Rightarrow> int option \<Rightarrow> search_results"
  get_lesson_link :: "string \<Rightarrow> int \<Rightarrow> string option"

text \<open>
  Modelled from the spec: a citation, "a display label (course title, optionally
  \<^verbatim>\<open> - Lesson N\<close>) paired with an optional URL" (section 3).
\<close>

record citation =
  label :: string
  url :: "string option"

text \<open>
  Modelled from the spec: the retrieval tool, which owns its citation list (section 3);
  the class \<^verbatim>\<open>CourseSearchTool\<close> is only known from its tests.
\<close>

record course_search_tool =
  store :: vector_store
  last_sources :: "citation list"

subsection \<open>Operations\<close>

text \<open>
  Modelled from the spec: the label of a chunk, the course title, followed by
  \<^verbatim>\<open> - Lesson <n>\<close> when lesson metadata is present (section 4.3).
\<close>

definition chunk_label :: "chunk_meta \<Rightarrow> string" where
  "chunk_label m =
     (case lesson_number m of
        None \<Rightarrow> course_title m
      | Some n \<Rightarrow> course_title m @ '' - Lesson '' @ show_int n)"

text \<open>
  Modelled from the spec: the header of a chunk, \<^verbatim>\<open>[<course title>]\<close> or
  \<^verbatim>\<open>[<course title> - Lesson <n>]\<close> (section 4.3): the label in brackets.
\<close>

definition chunk_header :: "chunk_meta \<Rightarrow> string" where
  "chunk_header m = ''['' @ chunk_label m @ '']''"

text \<open>
  Modelled from the spec: the citation of a chunk, "using the same label (without brackets)
  and, when the store can resolve a lesson link, an associated URL" (section 4.3). A link
  is looked up for a chunk that has a lesson number.
\<close>

definition citation_of :: "vector_store \<Rightarrow> chunk_meta \<Rightarrow> citation" where
  "citation_of vs m =
     \<lparr> label = chunk_label m,
       url = (case lesson_number m of
                None \<Rightarrow> None
              | Some n \<Rightarrow> get_lesson_link vs (course_title m) n) \<rparr>"

text \<open>Modelled from the spec: "joins all chunks with blank-line separation" (section 4.3).\<close>

fun join_blank :: "string list \<Rightarrow> string" where
  "join_blank [] = []"
| "join_blank [s] = s"
| "join_blank (s # t # ss) = s @ nl @ nl @ join_blank (t # ss)"

text \<open>
  Modelled from the spec: the "no content found" message, which "names the active filter(s)
  when present" (section 4.3); its wording is the one the tests of the tool expect
  (\<^verbatim>\<open>No relevant content found.\<close>, \<^verbatim>\<open>in course 'Python 101'\<close>, \<^verbatim>\<open>in lesson 3\<close>).
\<close>

definition no_content_message :: "string option \<Rightarrow> int option \<Rightarrow> string" where
  "no_content_message course_name lesson =
     ''No relevant content found''
       @ (case course_name of None \<Rightarrow> [] | Some c \<Rightarrow> '' in course '' @ [CHR 0x27] @ c @ [CHR 0x27])
       @ (case lesson of None \<Rightarrow> [] | Some n \<Rightarrow> '' in lesson '' @ show_int n)
       @ ''.''"

text \<open>
  Modelled from the spec: \<^verbatim>\<open>CourseSearchTool.execute\<close> (section 4.3), which is not among the
  sources. It delegates to the store's search. The citation list is "overwritten (not
  appended) on every new execution of that tool" and "reflects only the most recent
  execution" (sections 3 and 8), with "one Citation per matched chunk" (section 4.3). So on
  an error condition the tool "returns that error text verbatim (no citations recorded)" and
  the list is empty afterwards; on zero matches it returns the "no content found" message,
  and the list, one citation per matched chunk, is empty as well; otherwise it returns, for
  each matched chunk, header and chunk text concatenated, the chunks joined by blank lines,
  and the list holds the citations of these chunks. The result is the returned text and the
  tool afterwards.
\<close>

definition execute ::
  "course_search_tool \<Rightarrow> string \<Rightarrow> string option \<Rightarrow> int option \<Rightarrow> string \<times> course_search_tool" where
  "execute tool query course_name lesson =
     (case search (store tool) query course_name lesson of
        StoreError msg \<Rightarrow> (msg, tool\<lparr> last_sources := [] \<rparr>)
      | Matches chunks \<Rightarrow>
          if chunks = [] then (no_content_message course_name lesson, tool\<lparr> last_sources := [] \<rparr>)
          else (join_blank (map (\<lambda>(doc, m). chunk_header m @ doc) chunks),
                tool\<lparr> last_sources := map (\<lambda>(doc, m). citation_of (store tool) m) chunks \<rparr>))"

section \<open>The query orchestrator (rag\_system.py, not among the sources)\<close>

text \<open>
  Modelled from the spec: the state of the session store, for each session id its ordered
  exchange history, "pairs of raw user text and assistant text" (section 3).
\<close>

type_synonym session_store = "string \<Rightarrow> (string \<times> string) list option"

text \<open>
  Modelled from the spec: \<^verbatim>\<open>add_exchange(session_id, user_text, assistant_text)\<close> of the
  session store (section 1), which appends the exchange to the history of the session.
\<close>

definition add_exchange :: "session_store \<Rightarrow> string \<Rightarrow> string \<Rightarrow> string \<Rightarrow> session_store" where
  "add_exchange sessions sid user_text assistant_text =
     sessions(sid \<mapsto> (case sessions sid of None \<Rightarrow> [] | Some xs \<Rightarrow> xs) @ [(user_text, assistant_text)])"

text \<open>
  Modelled from the spec: the orchestrator and its collaborators (section 4.5): the
  controller, the definitions and the executor of the tool registry, the citations the
  registry reports after the controller has run (they depend on the tool calls made, so
  on the trace) and the history text the session store formats.
\<close>

record rag_system =
  generator :: ai_generator
  tool_definitions :: "tool_def list"
  tool_executor :: tool_manager
  get_last_sources :: "event list \<Rightarrow> citation list"
  get_conversation_history :: "session_store \<Rightarrow> string \<Rightarrow> string option"

text \<open>
  Modelled from the spec: the "fixed instructional template" of step 1 of section 4.5, with
  the wording the test \<^verbatim>\<open>test_query_wraps_user_query_in_prompt\<close> expects.
\<close>

definition wrap_query :: "string \<Rightarrow> string" where
  "wrap_query raw_text = ''Answer this question about course materials: '' @ raw_text"

text \<open>
  Modelled from the spec: the display string of a citation, "for citations with a URL, a
  hyperlink-formatted string; otherwise the plain label" (step 6 of section 4.5).
\<close>

definition display_string :: "citation \<Rightarrow> string" where
  "display_string c =
     (case url c of
        None \<Rightarrow> label c
      | Some u \<Rightarrow> ''<a href='' @ dq @ u @ dq @ ''>'' @ label c @ ''</a>'')"

text \<open>
  Modelled from the spec: \<^verbatim>\<open>RAGSystem.query(raw_text, session_id)\<close> (section 4.5), which is
  not among the sources. It wraps the raw text, fetches the history when a session id is
  given, invokes the controller with the wrapped query, the history, the registry's
  definitions and the registry as executor, reads the citations, and, when a session id
  was given, appends the raw text and the answer to the session's history. A failure of
  the controller propagates and stores nothing. Resetting the registry's citations after
  the read does not show in the result of the query. The result is the answer with the
  citation display strings, the session store afterwards, and the controller's trace.
\<close>

definition rag_query ::
  "rag_system \<Rightarrow> session_store \<Rightarrow> string \<Rightarrow> string option
     \<Rightarrow> (exn + string \<times> string list) \<times> session_store \<times> event list" where
  "rag_query rag sessions raw_text session_id =
     (let prompt = wrap_query raw_text;
          history = (case session_id of
                       None \<Rightarrow> None
                     | Some sid \<Rightarrow> get_conversation_history rag sessions sid)
      in case generate_response (generator rag) prompt history
                (Some (tool_definitions rag)) (Some (tool_executor rag)) of
           (Inl e, tr) \<Rightarrow> (Inl e, sessions, tr)
         | (Inr answer, tr) \<Rightarrow>
             (let sources = get_last_sources rag tr;
                  sessions' = (case session_id of
                                 None \<Rightarrow> sessions
                               | Some sid \<Rightarrow> add_exchange sessions sid raw_text answer)
              in (Inr (answer, map display_string sources), sessions', tr)))"

section \<open>Example collaborators\<close>

text \<open>Concrete backends and tool managers, on which the theorems below are instantiated.\<close>

definition text_client :: client where
  "text_client tr p = Inr \<lparr> stop_reason = ''end_turn'', content = [TextBlock ''Direct answer''] \<rparr>"

definition text_generator :: ai_generator where
  "text_generator = \<lparr> client = text_client, self_model = ''claude-test'' \<rparr>"

definition search_tool_def :: tool_def where
  "search_tool_def =
     \<lparr> tool_name = ''search_course_content'', description = ''Search'', required = [''query''] \<rparr>"

text \<open>
  A backend that asks for one search whenever it is offered tools, and answers in text once
  the tools are withdrawn.
\<close>

definition searching_client :: client where
  "searching_client tr p =
     (if tools p = None
      then Inr \<lparr> stop_reason = ''end_turn'', content = [TextBlock ''Final''] \<rparr>
      else Inr \<lparr> stop_reason = ''tool_use'',
                 content = [ToolUseBlock ''toolu_01'' ''search_course_content''
                              [(''query'', StrArg ''x'')]] \<rparr>)"

definition searching_generator :: ai_generator where
  "searching_generator = \<lparr> client = searching_client, self_model = ''claude-test'' \<rparr>"

definition ok_tools :: tool_manager where
  "ok_tools tr n inp = Inr ''results''"

definition crashing_tools :: tool_manager where
  "crashing_tools tr n inp = Inl ''Tool crashed''"

definition two_tool_response :: response where
  "two_tool_response =
     \<lparr> stop_reason = ''tool_use'',
       content = [ToolUseBlock ''toolu_01'' ''get_course_outline'' [(''course_name'', StrArg ''MCP'')],
                  TextBlock ''Let me search.'',
                  ToolUseBlock ''toolu_02'' ''search_course_content'' [(''query'', StrArg ''x'')]] \<rparr>"

definition picky_tools :: tool_manager where
  "picky_tools tr n inp = (if n = ''get_course_outline'' then Inl ''Tool crashed'' else Inr ''results'')"

definition two_then_one_store :: vector_store where
  "two_then_one_store =
     \<lparr> search = (\<lambda>q c l.
          if q = ''first query''
          then Matches [(''doc1'', \<lparr> course_title = ''Course A'', lesson_number = Some 1 \<rparr>),
                        (''doc2'', \<lparr> course_title = ''Course B'', lesson_number = Some 2 \<rparr>)]
          else if q = ''second query''
          then Matches [(''doc3'', \<lparr> course_title = ''Course C'', lesson_number = Some 3 \<rparr>)]
          else StoreError ''search failed''),
       get_lesson_link = (\<lambda>t n. None) \<rparr>"

definition fresh_tool :: course_search_tool where
  "fresh_tool = \<lparr> store = two_then_one_store, last_sources = [] \<rparr>"

definition lesson_plans_store :: vector_store where
  "lesson_plans_store =
     \<lparr> search = (\<lambda>q c l.
          Matches [(''chunk content'', \<lparr> course_title = ''Lesson Plans'', lesson_number = None \<rparr>)]),
       get_lesson_link = (\<lambda>t n. None) \<rparr>"

definition headers_store :: vector_store where
  "headers_store =
     \<lparr> search = (\<lambda>q c l.
          Matches [(''chunk content'', \<lparr> course_title = ''Python Course'', lesson_number = None \<rparr>),
                   (''more content'', \<lparr> course_title = ''Python Course'', lesson_number = Some 5 \<rparr>)]),
       get_lesson_link = (\<lambda>t n. None) \<rparr>"

definition text_rag :: rag_system where
  "text_rag =
     \<lparr> generator = text_generator, tool_definitions = [search_tool_def],
       tool_executor = ok_tools, get_last_sources = (\<lambda>tr. []),
       get_conversation_history = (\<lambda>sessions sid. None) \<rparr>"

section \<open>Properties of the controller\<close>

subsection \<open>Auxiliary facts\<close>

lemma model_calls_append: "model_calls (xs @ ys) = model_calls xs @ model_calls ys"
  by (induction xs rule: model_calls.induct) simp_all

lemma tool_calls_append: "tool_calls (xs @ ys) = tool_calls xs @ tool_calls ys"
  by (induction xs rule: tool_calls.induct) simp_all

lemma execute_blocks_shape:
  "execute_blocks tm bs rs he tr = (rs', he', tr') \<Longrightarrow>
     \<exists>evs. tr' = tr @ evs \<and> model_calls evs = []
        \<and> length evs = length (tool_uses bs)
        \<and> map (\<lambda>(n, inp, out). (n, inp)) (tool_calls evs) = map snd (tool_uses bs)
        \<and> rs' = rs @ map2 render (map fst (tool_uses bs)) (map (\<lambda>(n, inp, out). out) (tool_calls evs))
        \<and> he' = (he \<or> (\<exists>n inp e. ToolCall n inp (Inl e) \<in> set evs))"
proof (induction tm bs rs he tr rule: execute_blocks.induct)
  case (1 tm tool_results had_error tr)
  then show ?case by simp
next
  case (2 tm t bs tool_results had_error tr)
  then show ?case by simp
next
  case (3 tm i n inp bs tool_results had_error tr)
  show ?case
  proof (cases "tm tr n inp")
    case (Inl e)
    with 3 obtain evs where
      "tr' = (tr @ [ToolCall n inp (Inl e)]) @ evs" "model_calls evs = []"
      "length evs = length (tool_uses bs)"
      "map (\<lambda>(n, inp, out). (n, inp)) (tool_calls evs) = map snd (tool_uses bs)"
      "rs' = (tool_results @ [render i (Inl e)]) @ map2 render (map fst (tool_uses bs)) (map (\<lambda>(n, inp, out). out) (tool_calls evs))"
      "he' = (True \<or> (\<exists>n inp e. ToolCall n inp (Inl e) \<in> set evs))"
      by (fastforce simp: render_def)
    then show ?thesis
      by (intro exI[of _ "ToolCall n inp (Inl e) # evs"]) (auto simp: Inl)
  next
    case (Inr t)
    with 3 obtain evs where
      "tr' = (tr @ [ToolCall n inp (Inr t)]) @ evs" "model_calls evs = []"
      "length evs = length (tool_uses bs)"
      "map (\<lambda>(n, inp, out). (n, inp)) (tool_calls evs) = map snd (tool_uses bs)"
      "rs' = (tool_results @ [render i (Inr t)]) @ map2 render (map fst (tool_uses bs)) (map (\<lambda>(n, inp, out). out) (tool_calls evs))"
      "he' = (had_error \<or> (\<exists>n inp e. ToolCall n inp (Inl e) \<in> set evs))"
      by (fastforce simp: render_def)
    then show ?thesis
      by (intro exI[of _ "ToolCall n inp (Inr t) # evs"]) (auto simp: Inr)
  qed
qed

lemma execute_tool_calls_shape:
  assumes "execute_tool_calls r tm tr = (rs, he, tr')"
  obtains evs where "tr' = tr @ evs" "model_calls evs = []"
    "length evs = length (tool_uses (content r))"
    "map (\<lambda>(n, inp, out). (n, inp)) (tool_calls evs) = map snd (tool_uses (content r))"
    "rs = map2 render (map fst (tool_uses (content r))) (map (\<lambda>(n, inp, out). out) (tool_calls evs))"
    "he = (\<exists>n inp e. ToolCall n inp (Inl e) \<in> set evs)"
  using execute_blocks_shape[OF assms[unfolded execute_tool_calls_def]] by auto

lemma tool_rounds_Suc_cases:
  assumes "tool_rounds c tmo ap (Suc n) ms tr = (ex, ms', tr')"
  obtains
    (backend) e where "c tr (ap\<lparr>messages := ms\<rparr>) = Inl e" "ex = Finished (Inl e)" "ms' = ms"
      "tr' = tr @ [ModelCall (ap\<lparr>messages := ms\<rparr>) (Inl e)]"
  | (answer) r where "c tr (ap\<lparr>messages := ms\<rparr>) = Inr r"
      "stop_reason r \<noteq> ''tool_use'' \<or> tmo = None"
      "ex = Finished (first_text r)" "ms' = ms"
      "tr' = tr @ [ModelCall (ap\<lparr>messages := ms\<rparr>) (Inr r)]"
  | (failure) r tm rs tr2 where "c tr (ap\<lparr>messages := ms\<rparr>) = Inr r"
      "stop_reason r = ''tool_use''" "tmo = Some tm"
      "execute_tool_calls r tm (tr @ [ModelCall (ap\<lparr>messages := ms\<rparr>) (Inr r)]) = (rs, True, tr2)"
      "ex = ToolFailure" "ms' = ms @ round_messages r rs" "tr' = tr2"
  | (continue) r tm rs tr2 where "c tr (ap\<lparr>messages := ms\<rparr>) = Inr r"
      "stop_reason r = ''tool_use''" "tmo = Some tm"
      "execute_tool_calls r tm (tr @ [ModelCall (ap\<lparr>messages := ms\<rparr>) (Inr r)]) = (rs, False, tr2)"
      "tool_rounds c tmo ap n (ms @ round_messages r rs) tr2 = (ex, ms', tr')"
proof (cases "c tr (ap\<lparr>messages := ms\<rparr>)")
  case (Inl e)
  with assms have "ex = Finished (Inl e)" "ms' = ms"
    "tr' = tr @ [ModelCall (ap\<lparr>messages := ms\<rparr>) (Inl e)]"
    by (auto simp: messages_create_def)
  with Inl show ?thesis by (rule backend)
next
  case (Inr r)
  show ?thesis
  proof (cases "stop_reason r \<noteq> ''tool_use'' \<or> tmo = None")
    case True
    with assms Inr have "ex = Finished (first_text r)" "ms' = ms"
      "tr' = tr @ [ModelCall (ap\<lparr>messages := ms\<rparr>) (Inr r)]"
      by (auto simp: messages_create_def split: option.splits)
    with Inr True show ?thesis by (rule answer)
  next
    case False
    then obtain tm where tm: "tmo = Some tm" and sr: "stop_reason r = ''tool_use''" by auto
    obtain rs he tr2 where
      ex: "execute_tool_calls r tm (tr @ [ModelCall (ap\<lparr>messages := ms\<rparr>) (Inr r)]) = (rs, he, tr2)"
      by (metis prod_cases3)
    show ?thesis
    proof (cases he)
      case True
      then have he: "he = True" by simp
      from True assms Inr tm sr ex have "ex = ToolFailure" "ms' = ms @ round_messages r rs" "tr' = tr2"
        by (auto simp: messages_create_def round_messages_def)
      with Inr sr tm ex[unfolded he] show ?thesis by (rule failure)
    next
      case False
      then have he: "he = False" by simp
      from False assms Inr tm sr ex
      have "tool_rounds c tmo ap n (ms @ round_messages r rs) tr2 = (ex, ms', tr')"
        by (auto simp: messages_create_def round_messages_def)
      with Inr sr tm ex[unfolded he] show ?thesis by (rule continue)
    qed
  qed
qed

lemma tool_rounds_extends:
  "tool_rounds c tmo ap n ms tr = (ex, ms', tr') \<Longrightarrow> \<exists>evs. tr' = tr @ evs"
proof (induction n arbitrary: ms tr)
  case 0
  then show ?case by simp
next
  case (Suc n)
  from Suc.prems show ?case
  proof (cases rule: tool_rounds_Suc_cases)
    case (failure r tm rs tr2)
    then show ?thesis by (auto elim!: execute_tool_calls_shape)
  next
    case (continue r tm rs tr2)
    from continue(4) obtain evs where "tr2 = (tr @ [ModelCall (ap\<lparr>messages := ms\<rparr>) (Inr r)]) @ evs"
      by (rule execute_tool_calls_shape)
    moreover from Suc.IH[OF continue(5)] obtain evs' where "tr' = tr2 @ evs'" by blast
    ultimately show ?thesis by simp
  qed simp_all
qed

lemma tool_rounds_count:
  "tool_rounds c tmo ap n ms tr = (ex, ms', tr') \<Longrightarrow>
     length (model_calls tr') \<le> length (model_calls tr) + n"
proof (induction n arbitrary: ms tr)
  case 0
  then show ?case by simp
next
  case (Suc n)
  from Suc.prems show ?case
  proof (cases rule: tool_rounds_Suc_cases)
    case (failure r tm rs tr2)
    from failure(4) show ?thesis
      by (rule execute_tool_calls_shape) (simp add: failure model_calls_append)
  next
    case (continue r tm rs tr2)
    from continue(4) have "length (model_calls tr2) = length (model_calls tr) + 1"
      by (rule execute_tool_calls_shape) (simp add: model_calls_append)
    with Suc.IH[OF continue(5)] show ?thesis by simp
  qed (simp_all add: model_calls_append)
qed

lemma loop_params_messages:
  "(loop_params self query h ts)\<lparr>messages := [\<lparr> role = User, msg_content = Text query \<rparr>]\<rparr>
     = loop_params self query h ts"
  by (simp add: loop_params_def Let_def split: option.splits)

lemma tool_rounds_params:
  "tool_rounds c tmo ap n ms tr = (ex, ms', tr') \<Longrightarrow> (p, out) \<in> set (model_calls tr') \<Longrightarrow>
     (p, out) \<in> set (model_calls tr) \<or> (\<exists>m. p = ap\<lparr>messages := m\<rparr>)"
proof (induction n arbitrary: ms tr)
  case 0
  then show ?case by simp
next
  case (Suc n)
  from Suc.prems(1) show ?case
  proof (cases rule: tool_rounds_Suc_cases)
    case (backend e)
    with Suc.prems(2) show ?thesis by (auto simp: model_calls_append)
  next
    case (answer r)
    with Suc.prems(2) show ?thesis by (auto simp: model_calls_append)
  next
    case (failure r tm rs tr2)
    from failure(4) have "model_calls tr2 = model_calls tr @ [(ap\<lparr>messages := ms\<rparr>, Inr r)]"
      by (rule execute_tool_calls_shape) (simp add: model_calls_append)
    with Suc.prems(2) failure show ?thesis by auto
  next
    case (continue r tm rs tr2)
    from continue(4) have "model_calls tr2 = model_calls tr @ [(ap\<lparr>messages := ms\<rparr>, Inr r)]"
      by (rule execute_tool_calls_shape) (simp add: model_calls_append)
    with Suc.IH[OF continue(5) Suc.prems(2)] show ?thesis by auto
  qed
qed

lemma generate_response_trace:
  assumes "tool_rounds (client self) tm (loop_params self query h ts) MAX_TOOL_ROUNDS
             [\<lparr> role = User, msg_content = Text query \<rparr>] [] = (ex, ms, tr0)"
  shows "snd (generate_response self query h ts tm) =
     (case ex of Finished r \<Rightarrow> tr0
      | _ \<Rightarrow> tr0 @ [ModelCall (final_params self h ms) (client self tr0 (final_params self h ms))])"
  using assms
  by (cases ex; cases "client self tr0 (final_params self h ms)")
     (simp_all add: generate_response_def messages_create_def)

lemma in_tool_calls: "ToolCall n inp out \<in> set evs \<Longrightarrow> (n, inp, out) \<in> set (tool_calls evs)"
  by (induction evs rule: tool_calls.induct) auto

lemma in_map2:
  assumes "y \<in> set ys" and "length xs = length ys"
  shows "\<exists>x. f x y \<in> set (map2 f xs ys)"
proof -
  from assms(1) obtain k where k: "k < length ys" "ys ! k = y" by (auto simp: in_set_conv_nth)
  with assms(2) have "map2 f xs ys ! k = f (xs ! k) y" "k < length (map2 f xs ys)" by simp_all
  then show ?thesis by (metis nth_mem)
qed

lemma execute_tool_calls_error_result:
  assumes "execute_tool_calls r tm tr = (rs, he, tr @ evs)"
    and "ToolCall n inp (Inl e) \<in> set evs"
  shows "\<exists>i. render i (Inl e) \<in> set rs"
proof -
  from assms(1) obtain evs' where evs': "tr @ evs = tr @ evs'"
    "map (\<lambda>(n, inp, out). (n, inp)) (tool_calls evs') = map snd (tool_uses (content r))"
    "rs = map2 render (map fst (tool_uses (content r))) (map (\<lambda>(n, inp, out). out) (tool_calls evs'))"
    by (rule execute_tool_calls_shape)
  then have eq: "evs' = evs" by simp
  from evs'(2) have len: "length (tool_calls evs') = length (tool_uses (content r))"
    by (metis length_map)
  from in_tool_calls[OF assms(2)] have "Inl e \<in> set (map (\<lambda>(n, inp, out). out) (tool_calls evs'))"
    unfolding eq by force
  from in_map2[OF this, of "map fst (tool_uses (content r))" render] len evs'(3)
  show ?thesis by simp
qed

lemma tool_rounds_failure:
  assumes "tool_rounds c tmo ap n ms tr = (ex, ms', tr @ evs)"
    and "ToolCall nm inp (Inl e) \<in> set evs"
  shows "ex = ToolFailure \<and>
     (\<exists>pre post rs i. evs = pre @ ToolCall nm inp (Inl e) # post \<and> model_calls post = []
        \<and> ms' \<noteq> [] \<and> last ms' = \<lparr> role = User, msg_content = ToolResults rs \<rparr>
        \<and> render i (Inl e) \<in> set rs)"
  using assms
proof (induction n arbitrary: ms tr evs)
  case 0
  then show ?case by simp
next
  case (Suc n)
  from Suc.prems(1) show ?case
  proof (cases rule: tool_rounds_Suc_cases)
    case (backend e')
    with Suc.prems(2) show ?thesis by auto
  next
    case (answer r)
    with Suc.prems(2) show ?thesis by auto
  next
    case (failure r tm rs tr2)
    let ?tr1 = "tr @ [ModelCall (ap\<lparr>messages := ms\<rparr>) (Inr r)]"
    from failure(4) obtain calls where calls: "tr2 = ?tr1 @ calls" "model_calls calls = []"
      by (rule execute_tool_calls_shape)
    with failure(7) have evs: "evs = ModelCall (ap\<lparr>messages := ms\<rparr>) (Inr r) # calls" by simp
    with Suc.prems(2) have mem: "ToolCall nm inp (Inl e) \<in> set calls" by simp
    then obtain pre post where split: "calls = pre @ ToolCall nm inp (Inl e) # post"
      by (auto dest: split_list)
    with calls(2) have post: "model_calls post = []" by (simp add: model_calls_append)
    from failure(4) calls(1) mem obtain i where "render i (Inl e) \<in> set rs"
      using execute_tool_calls_error_result by blast
    moreover have "evs = (ModelCall (ap\<lparr>messages := ms\<rparr>) (Inr r) # pre) @ ToolCall nm inp (Inl e) # post"
      using evs split by simp
    ultimately show ?thesis using failure(5,6) post
      unfolding round_messages_def by (intro conjI exI) auto
  next
    case (continue r tm rs tr2)
    let ?tr1 = "tr @ [ModelCall (ap\<lparr>messages := ms\<rparr>) (Inr r)]"
    from continue(4) obtain calls where calls: "tr2 = ?tr1 @ calls" "model_calls calls = []"
      "False = (\<exists>n inp e. ToolCall n inp (Inl e) \<in> set calls)"
      by (rule execute_tool_calls_shape)
    from tool_rounds_extends[OF continue(5)] obtain evs' where evs': "tr @ evs = tr2 @ evs'"
      by blast
    with calls(1) have evs: "evs = ModelCall (ap\<lparr>messages := ms\<rparr>) (Inr r) # calls @ evs'"
      by simp
    with Suc.prems(2) calls(3) have mem: "ToolCall nm inp (Inl e) \<in> set evs'" by auto
    from continue(5) evs' have "tool_rounds c tmo ap n (ms @ round_messages r rs) tr2 = (ex, ms', tr2 @ evs')"
      by simp
    from Suc.IH[OF this mem] obtain pre post rs' i where
      "ex = ToolFailure" "evs' = pre @ ToolCall nm inp (Inl e) # post" "model_calls post = []"
      "ms' \<noteq> []" "last ms' = \<lparr> role = User, msg_content = ToolResults rs' \<rparr>"
      "render i (Inl e) \<in> set rs'"
      by blast
    moreover from this(2) evs
    have "evs = (ModelCall (ap\<lparr>messages := ms\<rparr>) (Inr r) # calls @ pre) @ ToolCall nm inp (Inl e) # post"
      by simp
    ultimately show ?thesis by blast
  qed
qed

text \<open>The equations that evaluate an invocation on concrete collaborators.\<close>

lemmas run_simps = generate_response_def MAX_TOOL_ROUNDS_def numeral_2_eq_2 messages_create_def
  execute_tool_calls_def loop_params_def Let_def base_params_def final_params_def first_text_def

lemma generate_response_eq:
  assumes "tool_rounds (client self) tm (loop_params self query h ts) MAX_TOOL_ROUNDS
             [\<lparr> role = User, msg_content = Text query \<rparr>] [] = (ex, ms, tr0)"
  shows "generate_response self query h ts tm =
     (case ex of
        Finished r \<Rightarrow> (r, tr0)
      | _ \<Rightarrow> ((case client self tr0 (final_params self h ms) of
                  Inl x \<Rightarrow> Inl x | Inr r \<Rightarrow> first_text r),
               tr0 @ [ModelCall (final_params self h ms) (client self tr0 (final_params self h ms))]))"
  using assms
  by (cases ex; cases "client self tr0 (final_params self h ms)")
     (simp_all add: generate_response_def messages_create_def)

lemma chain_single: "chain ms [(q, out)] = (messages q = ms)"
  by (auto simp: chain_def)

lemma chain_Cons:
  assumes "chain (ms @ round_messages r rs) xs"
    and "map tool_use_id rs = map fst (tool_uses (content r))"
  shows "chain ms ((ap\<lparr>messages := ms\<rparr>, Inr r) # xs)"
proof -
  from assms(1) obtain y ys where xs: "xs = y # ys" by (cases xs) (auto simp: chain_def)
  with assms show ?thesis by (auto simp: chain_def round_step_def)
qed

lemma tool_use_ids_render:
  "length outs = length us \<Longrightarrow> map tool_use_id (map2 render (map fst us) outs) = map fst us"
  by (induction us arbitrary: outs) (auto simp: render_def length_Suc_conv)

lemma execute_tool_calls_ids:
  assumes "execute_tool_calls r tm tr = (rs, he, tr')"
  shows "map tool_use_id rs = map fst (tool_uses (content r))"
proof -
  from assms obtain evs where
    sig: "map (\<lambda>(n, inp, out). (n, inp)) (tool_calls evs) = map snd (tool_uses (content r))"
    and rs: "rs = map2 render (map fst (tool_uses (content r))) (map (\<lambda>(n, inp, out). out) (tool_calls evs))"
    by (rule execute_tool_calls_shape)
  from sig have "length (map (\<lambda>(n, inp, out). out) (tool_calls evs)) = length (tool_uses (content r))"
    by (metis length_map)
  from tool_use_ids_render[OF this] rs show ?thesis by simp
qed

lemma tool_rounds_chain:
  assumes "tool_rounds c tmo ap n ms tr = (ex, ms', tr @ evs)"
  shows "case ex of
           Finished res \<Rightarrow> chain ms (model_calls evs)
         | _ \<Rightarrow> (\<forall>q out. messages q = ms' \<longrightarrow> chain ms (model_calls evs @ [(q, out)]))"
  using assms
proof (induction n arbitrary: ms tr evs)
  case 0
  then show ?case by (simp add: chain_single)
next
  case (Suc n)
  let ?p = "ap\<lparr>messages := ms\<rparr>"
  from Suc.prems show ?case
  proof (cases rule: tool_rounds_Suc_cases)
    case (backend e)
    then show ?thesis by (simp add: chain_single)
  next
    case (answer r)
    then show ?thesis by (simp add: chain_single)
  next
    case (failure r tm rs tr2)
    from failure(4) obtain calls where calls: "tr2 = (tr @ [ModelCall ?p (Inr r)]) @ calls"
      "model_calls calls = []"
      by (rule execute_tool_calls_shape)
    with failure(7) have evs: "model_calls evs = [(?p, Inr r)]" by (simp add: model_calls_append)
    have "chain ms ((?p, Inr r) # [(q, out)])" if "messages q = ms'" for q out
      using that failure(6) execute_tool_calls_ids[OF failure(4)]
      by (intro chain_Cons[where rs = rs]) (simp_all add: chain_single)
    with failure(5) evs show ?thesis by simp
  next
    case (continue r tm rs tr2)
    from continue(4) obtain calls where calls: "tr2 = (tr @ [ModelCall ?p (Inr r)]) @ calls"
      "model_calls calls = []"
      by (rule execute_tool_calls_shape)
    from tool_rounds_extends[OF continue(5)] obtain evs' where evs': "tr @ evs = tr2 @ evs'"
      by blast
    with calls have evs: "model_calls evs = (?p, Inr r) # model_calls evs'"
      by (simp add: model_calls_append)
    from continue(5) evs'
    have "tool_rounds c tmo ap n (ms @ round_messages r rs) tr2 = (ex, ms', tr2 @ evs')"
      by simp
    from Suc.IH[OF this] execute_tool_calls_ids[OF continue(4)] evs show ?thesis
      by (cases ex) (auto intro: chain_Cons[where rs = rs])
  qed
qed

lemma generate_response_chain:
  "chain [\<lparr> role = User, msg_content = Text query \<rparr>]
     (model_calls (snd (generate_response self query h ts tm)))"
proof -
  obtain ex ms tr0 where
    loop: "tool_rounds (client self) tm (loop_params self query h ts) MAX_TOOL_ROUNDS
             [\<lparr> role = User, msg_content = Text query \<rparr>] [] = (ex, ms, tr0)"
    by (metis prod_cases3)
  then have "tool_rounds (client self) tm (loop_params self query h ts) MAX_TOOL_ROUNDS
             [\<lparr> role = User, msg_content = Text query \<rparr>] [] = (ex, ms, [] @ tr0)"
    by simp
  from tool_rounds_chain[OF this] generate_response_trace[OF loop]
  show ?thesis
    by (cases ex) (simp_all add: model_calls_append final_params_def)
qed

lemma other_role_twice: "other_role (other_role r) = r"
  by (cases r) simp_all

lemma alternates_from_append:
  "alternates_from r (xs @ ys) =
     (alternates_from r xs \<and> alternates_from (if even (length xs) then r else other_role r) ys)"
  by (induction xs arbitrary: r) (auto simp: other_role_twice)

lemma chain_alternates:
  assumes "successively round_step xs"
    and "xs \<noteq> []"
    and "alternates_from User (messages (fst (hd xs)))" "odd (length (messages (fst (hd xs))))"
    and "x \<in> set xs"
  shows "alternates_from User (messages (fst x)) \<and> odd (length (messages (fst x)))"
  using assms
proof (induction xs)
  case Nil
  then show ?case by simp
next
  case (Cons a xs)
  show ?case
  proof (cases "x = a")
    case True
    with Cons.prems show ?thesis by simp
  next
    case False
    with Cons.prems have x: "x \<in> set xs" and ne: "xs \<noteq> []" by auto
    with Cons.prems(1) have step: "round_step a (hd xs)" and succ: "successively round_step xs"
      by (auto simp: successively_Cons)
    from step Cons.prems(3,4)
    have "alternates_from User (messages (fst (hd xs)))" "odd (length (messages (fst (hd xs))))"
      by (auto simp: round_step_def round_messages_def alternates_from_append)
    from Cons.IH[OF succ ne this x] show ?thesis .
  qed
qed

subsection \<open>Bound on the number of model requests\<close>

text \<open>
  Claim C1: whatever the backend and the tools answer, one invocation of
  \<^verbatim>\<open>generate_response\<close> issues at most \<open>MAX_TOOL_ROUNDS + 1\<close> model requests, that is at
  most three.
\<close>

theorem model_call_bound:
  "length (model_calls (snd (generate_response self query conversation_history tools_arg tool_manager)))
     \<le> MAX_TOOL_ROUNDS + 1 \<and> MAX_TOOL_ROUNDS + 1 = 3"
proof -
  obtain ex ms tr where
    loop: "tool_rounds (client self) tool_manager
             (loop_params self query conversation_history tools_arg) MAX_TOOL_ROUNDS
             [\<lparr> role = User, msg_content = Text query \<rparr>] [] = (ex, ms, tr)"
    by (metis prod_cases3)
  from tool_rounds_count[OF loop] have le: "length (model_calls tr) \<le> MAX_TOOL_ROUNDS" by simp
  have "length (model_calls (snd (generate_response self query conversation_history tools_arg tool_manager)))
     \<le> MAX_TOOL_ROUNDS + 1"
    using le
    by (cases ex)
       (auto simp: generate_response_def loop messages_create_def model_calls_append
             split: sum.splits)
  then show ?thesis by (simp add: MAX_TOOL_ROUNDS_def)
qed

subsection \<open>Recovery from a tool failure\<close>

text \<open>
  Claim C2: if a tool execution of an invocation raises the exception \<open>e\<close>, then the rest of
  the trace after that call consists of the remaining tool calls of the same round and
  exactly one model request, the last event. That request carries no tool catalog and no
  tool choice; its last message is the user message bundling the round's tool results, one
  of which has the content \<^verbatim>\<open>Tool execution error: \<close> followed by the message of \<open>e\<close>; and the
  result of the invocation is the outcome of that request (its text), so the tool's exception
  does not leave \<^verbatim>\<open>generate_response\<close>.
\<close>

theorem tool_error_recovered:
  assumes "generate_response self query h ts tm = (res, tr)"
    and "ToolCall nm inp (Inl e) \<in> set tr"
  shows "\<exists>pre post p out rs i.
       tr = pre @ ToolCall nm inp (Inl e) # post @ [ModelCall p out]
     \<and> model_calls post = []
     \<and> tools p = None \<and> tool_choice p = None
     \<and> out = client self (pre @ ToolCall nm inp (Inl e) # post) p
     \<and> messages p \<noteq> []
     \<and> last (messages p) = \<lparr> role = User, msg_content = ToolResults rs \<rparr>
     \<and> \<lparr> result_type = ''tool_result'', tool_use_id = i,
         result_content = ''Tool execution error: '' @ e \<rparr> \<in> set rs
     \<and> res = (case out of Inl x \<Rightarrow> Inl x | Inr r \<Rightarrow> first_text r)"
proof -
  obtain ex ms tr0 where
    loop: "tool_rounds (client self) tm (loop_params self query h ts) MAX_TOOL_ROUNDS
             [\<lparr> role = User, msg_content = Text query \<rparr>] [] = (ex, ms, tr0)"
    by (metis prod_cases3)
  let ?p = "final_params self h ms"
  from assms generate_response_eq[OF loop] have mem: "ToolCall nm inp (Inl e) \<in> set tr0"
    by (cases ex) auto
  from loop have "tool_rounds (client self) tm (loop_params self query h ts) MAX_TOOL_ROUNDS
             [\<lparr> role = User, msg_content = Text query \<rparr>] [] = (ex, ms, [] @ tr0)"
    by simp
  from tool_rounds_failure[OF this mem] obtain pre post rs i where
    f: "ex = ToolFailure" "tr0 = pre @ ToolCall nm inp (Inl e) # post" "model_calls post = []"
      "ms \<noteq> []" "last ms = \<lparr> role = User, msg_content = ToolResults rs \<rparr>"
      "render i (Inl e) \<in> set rs"
    by blast
  from assms(1) generate_response_eq[OF loop] f(1)
  have res: "res = (case client self tr0 ?p of Inl x \<Rightarrow> Inl x | Inr r \<Rightarrow> first_text r)"
    and tr: "tr = tr0 @ [ModelCall ?p (client self tr0 ?p)]"
    by simp_all
  have "tr = pre @ ToolCall nm inp (Inl e) # post @ [ModelCall ?p (client self tr0 ?p)]"
    using tr f(2) by simp
  moreover have "tools ?p = None" "tool_choice ?p = None" "messages ?p = ms"
    by (simp_all add: final_params_def base_params_def)
  moreover have "\<lparr> result_type = ''tool_result'', tool_use_id = i,
         result_content = ''Tool execution error: '' @ e \<rparr> \<in> set rs"
    using f(6) by (simp add: render_def)
  ultimately show ?thesis using f(2,3,4,5) res by (intro exI conjI) auto
qed

theorem tool_error_recovered_witness:
  "fst (generate_response searching_generator ''test'' None (Some [search_tool_def])
          (Some crashing_tools)) = Inr ''Final''
   \<and> ToolCall ''search_course_content'' [(''query'', StrArg ''x'')] (Inl ''Tool crashed'')
       \<in> set (snd (generate_response searching_generator ''test'' None (Some [search_tool_def])
                     (Some crashing_tools)))
   \<and> length (model_calls (snd (generate_response searching_generator ''test'' None
                                   (Some [search_tool_def]) (Some crashing_tools)))) = 2"
proof -
  let ?run = "generate_response searching_generator ''test'' None (Some [search_tool_def])
          (Some crashing_tools)"
  have eq: "?run = (fst ?run, snd ?run)" by simp
  have mem: "ToolCall ''search_course_content'' [(''query'', StrArg ''x'')] (Inl ''Tool crashed'')
       \<in> set (snd ?run)"
    by (simp add: run_simps searching_generator_def searching_client_def crashing_tools_def)
  from tool_error_recovered[OF eq mem] obtain pre post p out where
    tr: "snd ?run = pre @ ToolCall ''search_course_content'' [(''query'', StrArg ''x'')]
                            (Inl ''Tool crashed'') # post @ [ModelCall p out]"
    and "model_calls post = []"
    by blast
  have "fst ?run = Inr ''Final''"
    by (simp add: run_simps searching_generator_def searching_client_def crashing_tools_def)
  moreover have "length (model_calls (snd ?run)) = 2"
    by (simp add: run_simps searching_generator_def searching_client_def crashing_tools_def)
  ultimately show ?thesis using mem tr by simp
qed

subsection \<open>A direct answer\<close>




subsection \<open>Two messages per tool round\<close>

text \<open>
  Claim C4: a round in which tools are used is a model request that is followed by another
  one. The next request carries the messages of the previous one plus exactly two: the
  assistant message with the content blocks of the response, then one user message with
  the round's tool results, whose ids are the ids of the tool-use blocks of that response, in
  order. So the message sequence of every request alternates user, assistant, user, ...
\<close>

theorem two_messages_per_round:
  assumes "generate_response self query h ts tm = (res, tr)"
    and "Suc k < length (model_calls tr)"
  shows "\<exists>r rs.
       snd (model_calls tr ! k) = Inr r
     \<and> messages (fst (model_calls tr ! Suc k))
         = messages (fst (model_calls tr ! k))
           @ [\<lparr> role = Assistant, msg_content = Blocks (content r) \<rparr>,
              \<lparr> role = User, msg_content = ToolResults rs \<rparr>]
     \<and> map tool_use_id rs = map fst (tool_uses (content r))
     \<and> alternates_from User (messages (fst (model_calls tr ! k)))
     \<and> alternates_from User (messages (fst (model_calls tr ! Suc k)))"
proof -
  let ?mcs = "model_calls tr"
  from generate_response_chain[of query self h ts tm] assms(1)
  have ch: "chain [\<lparr> role = User, msg_content = Text query \<rparr>] ?mcs" by simp
  then have succ: "successively round_step ?mcs" and ne: "?mcs \<noteq> []"
    and hd: "messages (fst (hd ?mcs)) = [\<lparr> role = User, msg_content = Text query \<rparr>]"
    by (simp_all add: chain_def)
  from hd have alt0: "alternates_from User (messages (fst (hd ?mcs)))"
    "odd (length (messages (fst (hd ?mcs))))"
    by simp_all
  from assms(2) have "?mcs ! k \<in> set ?mcs" "?mcs ! Suc k \<in> set ?mcs" by simp_all
  with chain_alternates[OF succ ne alt0]
  have alt: "alternates_from User (messages (fst (?mcs ! k)))"
    "alternates_from User (messages (fst (?mcs ! Suc k)))"
    by blast+
  from successively_nth[OF succ assms(2)] have "round_step (?mcs ! k) (?mcs ! Suc k)" .
  with alt show ?thesis by (auto simp: round_step_def round_messages_def)
qed

theorem two_messages_per_round_witness:
  "Suc 0 < length (model_calls (snd (generate_response searching_generator ''test'' None
                                       (Some [search_tool_def]) (Some ok_tools))))
   \<and> map (\<lambda>(p, out). map role (messages p))
        (model_calls (snd (generate_response searching_generator ''test'' None
                             (Some [search_tool_def]) (Some ok_tools))))
     = [[User], [User, Assistant, User], [User, Assistant, User, Assistant, User]]
   \<and> alternates_from User
        (messages (fst (model_calls (snd (generate_response searching_generator ''test'' None
                                            (Some [search_tool_def]) (Some ok_tools))) ! Suc 0)))"
proof -
  let ?run = "generate_response searching_generator ''test'' None (Some [search_tool_def])
                (Some ok_tools)"
  have eq: "?run = (fst ?run, snd ?run)" by simp
  have len: "Suc 0 < length (model_calls (snd ?run))"
    by (simp add: run_simps searching_generator_def searching_client_def ok_tools_def)
  from two_messages_per_round[OF eq len]
  have alt: "alternates_from User (messages (fst (model_calls (snd ?run) ! Suc 0)))"
    by (elim exE conjE)
  have "map (\<lambda>(p, out). map role (messages p)) (model_calls (snd ?run))
     = [[User], [User, Assistant, User], [User, Assistant, User, Assistant, User]]"
    by (simp add: run_simps searching_generator_def searching_client_def ok_tools_def)
  with len alt show ?thesis by (intro conjI)
qed

subsection \<open>The tool catalog is offered in the loop only\<close>

text \<open>
  Claim C5: when a (non-empty) tool catalog is supplied, every model request issued by the
  loop carries that catalog and the tool choice \<^verbatim>\<open>auto\<close>; when the loop is left by
  exhausting its rounds or after a tool failure, the invocation issues exactly one more
  request, which carries neither a catalog nor a tool choice; when the loop returns by
  itself no further request is issued.
\<close>

theorem tool_catalog_in_loop_only:
  assumes "ts \<noteq> []"
    and "tool_rounds (client self) tm (loop_params self query h (Some ts)) MAX_TOOL_ROUNDS
           [\<lparr> role = User, msg_content = Text query \<rparr>] [] = (ex, ms, tr0)"
  shows "(\<forall>(p, out) \<in> set (model_calls tr0). tools p = Some ts \<and> tool_choice p = Some ''auto'')
       \<and> (case ex of
            Finished r \<Rightarrow> snd (generate_response self query h (Some ts) tm) = tr0
          | _ \<Rightarrow> snd (generate_response self query h (Some ts) tm)
                   = tr0 @ [ModelCall (final_params self h ms)
                              (client self tr0 (final_params self h ms))]
                 \<and> tools (final_params self h ms) = None
                 \<and> tool_choice (final_params self h ms) = None)"
proof -
  have "tools p = Some ts \<and> tool_choice p = Some ''auto''"
    if "(p, out) \<in> set (model_calls tr0)" for p out
  proof -
    from tool_rounds_params[OF assms(2) that] obtain m where
      "p = (loop_params self query h (Some ts))\<lparr>messages := m\<rparr>"
      by auto
    with assms(1) show ?thesis by (simp add: loop_params_def Let_def)
  qed
  moreover have "tools (final_params self h ms) = None \<and> tool_choice (final_params self h ms) = None"
    by (simp add: final_params_def base_params_def)
  ultimately show ?thesis
    using generate_response_trace[OF assms(2)] by (cases ex) auto
qed

theorem tool_catalog_in_loop_only_witness:
  "[search_tool_def] \<noteq> []
   \<and> fst (tool_rounds (client searching_generator) (Some ok_tools)
            (loop_params searching_generator ''test'' None (Some [search_tool_def]))
            MAX_TOOL_ROUNDS [\<lparr> role = User, msg_content = Text ''test'' \<rparr>] []) = RoundsExhausted
   \<and> map (\<lambda>(p, out). (tools p, tool_choice p))
        (model_calls (snd (generate_response searching_generator ''test'' None
                             (Some [search_tool_def]) (Some ok_tools))))
     = [(Some [search_tool_def], Some ''auto''), (Some [search_tool_def], Some ''auto''),
        (None, None)]"
proof -
  let ?loop = "tool_rounds (client searching_generator) (Some ok_tools)
            (loop_params searching_generator ''test'' None (Some [search_tool_def]))
            MAX_TOOL_ROUNDS [\<lparr> role = User, msg_content = Text ''test'' \<rparr>] []"
  have ne: "[search_tool_def] \<noteq> []" by simp
  have loop: "?loop = (fst ?loop, fst (snd ?loop), snd (snd ?loop))" by simp
  have ex: "fst ?loop = RoundsExhausted"
    by (simp add: run_simps searching_generator_def searching_client_def ok_tools_def)
  have calls: "map (\<lambda>(p, out). (tools p, tool_choice p)) (model_calls (snd (snd ?loop)))
     = [(Some [search_tool_def], Some ''auto''), (Some [search_tool_def], Some ''auto'')]"
    by (simp add: run_simps searching_generator_def searching_client_def ok_tools_def)
  from tool_catalog_in_loop_only[OF ne loop] ex calls show ?thesis
    by (simp add: model_calls_append)
qed

subsection \<open>The system directive\<close>

text \<open>
  Claim C9: every model request of an invocation carries the same system directive: the
  preamble \<open>SYSTEM_PROMPT\<close> alone when no history text is supplied (\<^verbatim>\<open>None\<close> or the empty
  string), and otherwise the preamble followed by the heading
  \<^verbatim>\<open>Previous conversation:\<close> and the history text, unmodified.
\<close>

theorem system_directive:
  assumes "(p, out) \<in> set (model_calls (snd (generate_response self query h ts tm)))"
  shows "system p =
     (case h of
        None \<Rightarrow> SYSTEM_PROMPT
      | Some hist \<Rightarrow>
          if hist = [] then SYSTEM_PROMPT
          else SYSTEM_PROMPT @ nl @ nl @ ''Previous conversation:'' @ nl @ hist)"
proof -
  obtain ex ms tr0 where
    loop: "tool_rounds (client self) tm (loop_params self query h ts) MAX_TOOL_ROUNDS
             [\<lparr> role = User, msg_content = Text query \<rparr>] [] = (ex, ms, tr0)"
    by (metis prod_cases3)
  from assms generate_response_trace[OF loop]
  have "(p, out) \<in> set (model_calls tr0) \<or> p = final_params self h ms"
    by (cases ex) (auto simp: model_calls_append)
  then have "system p = system_content h"
  proof
    assume "(p, out) \<in> set (model_calls tr0)"
    with tool_rounds_params[OF loop] obtain m where
      "p = (loop_params self query h ts)\<lparr>messages := m\<rparr>"
      by auto
    then show ?thesis by (simp add: loop_params_def Let_def split: option.splits)
  next
    assume "p = final_params self h ms"
    then show ?thesis by (simp add: final_params_def)
  qed
  then show ?thesis by (simp add: system_content_def)
qed

theorem system_directive_witness:
  "(loop_params text_generator ''test'' (Some ''User: Hi'') None,
      Inr \<lparr> stop_reason = ''end_turn'', content = [TextBlock ''Direct answer''] \<rparr>)
     \<in> set (model_calls (snd (generate_response text_generator ''test'' (Some ''User: Hi'') None None)))
   \<and> system (loop_params text_generator ''test'' (Some ''User: Hi'') None)
       = SYSTEM_PROMPT @ nl @ nl @ ''Previous conversation:'' @ nl @ ''User: Hi''"
proof -
  have m: "(loop_params text_generator ''test'' (Some ''User: Hi'') None,
      Inr \<lparr> stop_reason = ''end_turn'', content = [TextBlock ''Direct answer''] \<rparr>)
     \<in> set (model_calls (snd (generate_response text_generator ''test'' (Some ''User: Hi'') None None)))"
    by (simp add: generate_response_def MAX_TOOL_ROUNDS_def numeral_2_eq_2 messages_create_def
          loop_params_messages text_generator_def text_client_def first_text_def)
  from system_directive[OF m] m show ?thesis by simp
qed

subsection \<open>All tool-use blocks of a round are executed\<close>

text \<open>
  Claim C10: \<^verbatim>\<open>_execute_tool_calls\<close> calls the tool manager once for every tool-use block of
  the response, in block order, whether or not an earlier call raised; it returns one tool
  result per tool-use block, in block order, carrying the block's id and the tool's output
  or the marked error message; and the failure flag is set exactly when one of the calls
  raised.
\<close>

theorem every_block_executed:
  assumes "execute_tool_calls response tm tr = (tool_results, had_error, tr')"
  shows "\<exists>evs. tr' = tr @ evs \<and> model_calls evs = []
     \<and> length evs = length (tool_uses (content response))
     \<and> map (\<lambda>(n, inp, out). (n, inp)) (tool_calls evs) = map snd (tool_uses (content response))
     \<and> tool_results = map2 render (map fst (tool_uses (content response)))
                         (map (\<lambda>(n, inp, out). out) (tool_calls evs))
     \<and> had_error = (\<exists>n inp e. ToolCall n inp (Inl e) \<in> set evs)"
  using assms by (rule execute_tool_calls_shape) blast

theorem every_block_executed_witness:
  "execute_tool_calls two_tool_response picky_tools []
     = ([\<lparr> result_type = ''tool_result'', tool_use_id = ''toolu_01'',
           result_content = ''Tool execution error: Tool crashed'' \<rparr>,
         \<lparr> result_type = ''tool_result'', tool_use_id = ''toolu_02'',
           result_content = ''results'' \<rparr>],
        True,
        [ToolCall ''get_course_outline'' [(''course_name'', StrArg ''MCP'')] (Inl ''Tool crashed''),
         ToolCall ''search_course_content'' [(''query'', StrArg ''x'')] (Inr ''results'')])
   \<and> length (tool_uses (content two_tool_response)) = 2"
proof -
  have run: "execute_tool_calls two_tool_response picky_tools []
     = ([\<lparr> result_type = ''tool_result'', tool_use_id = ''toolu_01'',
           result_content = ''Tool execution error: Tool crashed'' \<rparr>,
         \<lparr> result_type = ''tool_result'', tool_use_id = ''toolu_02'',
           result_content = ''results'' \<rparr>],
        True,
        [ToolCall ''get_course_outline'' [(''course_name'', StrArg ''MCP'')] (Inl ''Tool crashed''),
         ToolCall ''search_course_content'' [(''query'', StrArg ''x'')] (Inr ''results'')])"
    by (simp add: execute_tool_calls_def two_tool_response_def picky_tools_def)
  from every_block_executed[OF run] obtain evs where
    "[ToolCall ''get_course_outline'' [(''course_name'', StrArg ''MCP'')] (Inl ''Tool crashed''),
      ToolCall ''search_course_content'' [(''query'', StrArg ''x'')] (Inr ''results'')] = [] @ evs"
    "length evs = length (tool_uses (content two_tool_response))"
    by blast
  then have "length (tool_uses (content two_tool_response)) = 2" by auto
  with run show ?thesis by simp
qed

section \<open>Properties of the retrieval tool and of the orchestrator\<close>

subsection \<open>Auxiliary facts\<close>

lemma store_execute: "store (snd (execute tool q c l)) = store tool"
  by (simp add: execute_def split: search_results.splits)

lemmas tool_simps = execute_def chunk_header_def chunk_label_def citation_of_def show_int_def
  show_nat.simps digit_char_def

lemma no_Lesson_in_brackets:
  assumes "\<not> sublist ''Lesson'' t"
  shows "\<not> sublist ''Lesson'' (''['' @ t @ '']'')"
proof -
  have "\<not> suffix (''Lesso'' @ ''n'') (t @ '']'')"
    by (simp only: snoc_suffix_snoc) simp
  then have "\<not> suffix ''Lesson'' (t @ '']'')" by simp
  with assms have "\<not> sublist ''Lesson'' (t @ '']'')" by (simp add: sublist_snoc)
  then show ?thesis by (simp add: sublist_Cons_right)
qed

subsection \<open>The citation list reflects the last execution only\<close>

text \<open>
  Claim C6: of two consecutive executions of the retrieval tool, the citation list after the
  second one holds exactly the citations the second execution produced, one per chunk it
  matched and none when it matched nothing or met an error; whatever the first execution
  left is overwritten, so the list is the one the second execution alone would leave.
  Searches yielding two and then one matched chunks leave a list of length one.
\<close>

theorem citations_overwritten:
  "last_sources (snd (execute (snd (execute tool q1 c1 l1)) q2 c2 l2))
     = (case search (store tool) q2 c2 l2 of
          StoreError msg \<Rightarrow> []
        | Matches chunks \<Rightarrow> map (\<lambda>(doc, m). citation_of (store tool) m) chunks)
   \<and> last_sources (snd (execute (snd (execute tool q1 c1 l1)) q2 c2 l2))
     = last_sources (snd (execute tool q2 c2 l2))"
proof -
  let ?t1 = "snd (execute tool q1 c1 l1)"
  have st: "store ?t1 = store tool" by (rule store_execute)
  have after: "last_sources (snd (execute t q2 c2 l2))
     = (case search (store t) q2 c2 l2 of
          StoreError msg \<Rightarrow> []
        | Matches chunks \<Rightarrow> map (\<lambda>(doc, m). citation_of (store t) m) chunks)" for t
    by (simp add: execute_def split: search_results.splits)
  from after[of ?t1, unfolded st] after[of tool] show ?thesis by simp
qed

theorem citations_overwritten_witness:
  "length (last_sources (snd (execute fresh_tool ''first query'' None None))) = 2
   \<and> last_sources (snd (execute (snd (execute fresh_tool ''first query'' None None))
                           ''second query'' None None))
       = [\<lparr> label = ''Course C - Lesson 3'', url = None \<rparr>]
   \<and> length (last_sources (snd (execute (snd (execute fresh_tool ''first query'' None None))
                                   ''second query'' None None))) = 1"
proof -
  have first: "length (last_sources (snd (execute fresh_tool ''first query'' None None))) = 2"
    by (simp add: tool_simps fresh_tool_def two_then_one_store_def)
  from citations_overwritten[of fresh_tool "''first query''" None None "''second query''" None None]
    first
  show ?thesis
    by (simp add: citation_of_def chunk_label_def show_int_def show_nat.simps digit_char_def
          fresh_tool_def two_then_one_store_def)
qed

subsection \<open>The wrapped query reaches the controller, the raw text is stored\<close>

text \<open>
  Claim C7: when a query with a session id is answered, the controller was invoked with the
  raw text wrapped in the template \<^verbatim>\<open>Answer this question about course materials: \<close> (so the
  first model request carries the wrapped text as its only message), while the exchange
  appended to the session's history holds the raw text, which differs from the wrapped one.
\<close>

theorem stored_exchange_is_raw:
  assumes "rag_query rag sessions raw_text (Some sid) = (Inr (answer, srcs), sessions', tr)"
  shows "generate_response (generator rag)
           (''Answer this question about course materials: '' @ raw_text)
           (get_conversation_history rag sessions sid)
           (Some (tool_definitions rag)) (Some (tool_executor rag)) = (Inr answer, tr)
       \<and> model_calls tr \<noteq> []
       \<and> messages (fst (hd (model_calls tr)))
           = [\<lparr> role = User,
                msg_content = Text (''Answer this question about course materials: '' @ raw_text) \<rparr>]
       \<and> sessions' sid
           = Some ((case sessions sid of None \<Rightarrow> [] | Some xs \<Rightarrow> xs) @ [(raw_text, answer)])
       \<and> raw_text \<noteq> ''Answer this question about course materials: '' @ raw_text"
proof -
  let ?run = "generate_response (generator rag) (wrap_query raw_text)
           (get_conversation_history rag sessions sid)
           (Some (tool_definitions rag)) (Some (tool_executor rag))"
  from assms have run: "?run = (Inr answer, tr)"
    and st: "sessions' = add_exchange sessions sid raw_text answer"
    by (auto simp: rag_query_def Let_def split: prod.splits sum.splits)
  from generate_response_chain[of "wrap_query raw_text" "generator rag"
      "get_conversation_history rag sessions sid" "Some (tool_definitions rag)"
      "Some (tool_executor rag)"] run
  have "chain [\<lparr> role = User, msg_content = Text (wrap_query raw_text) \<rparr>] (model_calls tr)"
    by simp
  then have "model_calls tr \<noteq> []"
    "messages (fst (hd (model_calls tr))) = [\<lparr> role = User, msg_content = Text (wrap_query raw_text) \<rparr>]"
    by (simp_all add: chain_def)
  moreover have "raw_text \<noteq> ''Answer this question about course materials: '' @ raw_text"
    by simp
  ultimately show ?thesis using run st by (simp add: wrap_query_def add_exchange_def)
qed

theorem stored_exchange_is_raw_witness:
  "rag_query text_rag (\<lambda>sid. None) ''original query'' (Some ''session_1'')
     = (Inr (''Direct answer'', []),
        (\<lambda>sid. None)(''session_1'' \<mapsto> [(''original query'', ''Direct answer'')]),
        [ModelCall (loop_params text_generator
                      ''Answer this question about course materials: original query'' None
                      (Some [search_tool_def]))
           (Inr \<lparr> stop_reason = ''end_turn'', content = [TextBlock ''Direct answer''] \<rparr>)])
   \<and> messages (loop_params text_generator
                 ''Answer this question about course materials: original query'' None
                 (Some [search_tool_def]))
       = [\<lparr> role = User,
            msg_content = Text ''Answer this question about course materials: original query'' \<rparr>]"
proof -
  have run: "rag_query text_rag (\<lambda>sid. None) ''original query'' (Some ''session_1'')
     = (Inr (''Direct answer'', []),
        (\<lambda>sid. None)(''session_1'' \<mapsto> [(''original query'', ''Direct answer'')]),
        [ModelCall (loop_params text_generator
                      ''Answer this question about course materials: original query'' None
                      (Some [search_tool_def]))
           (Inr \<lparr> stop_reason = ''end_turn'', content = [TextBlock ''Direct answer''] \<rparr>)])"
    by (simp add: rag_query_def text_rag_def wrap_query_def add_exchange_def
          generate_response_def MAX_TOOL_ROUNDS_def numeral_2_eq_2 messages_create_def
          loop_params_messages text_generator_def text_client_def first_text_def)
  from stored_exchange_is_raw[OF run] run show ?thesis by simp
qed

subsection \<open>The header of a formatted chunk\<close>

text \<open>
  Claim C8, as amended: an execution that matches chunks returns, for each chunk, the header
  \<^verbatim>\<open>[<course title>]\<close> when the metadata has no lesson number and
  \<^verbatim>\<open>[<course title> - Lesson <n>]\<close> when it has one, followed by the chunk text; and the
  header of a chunk without lesson number does not contain the word \<^verbatim>\<open>Lesson\<close> unless the
  course title itself contains it.
\<close>

theorem chunk_header_format:
  assumes "search (store tool) q c l = Matches chunks" and "chunks \<noteq> []"
  shows "fst (execute tool q c l)
           = join_blank (map (\<lambda>(doc, m).
               (case lesson_number m of
                  None \<Rightarrow> ''['' @ course_title m @ '']''
                | Some n \<Rightarrow> ''['' @ course_title m @ '' - Lesson '' @ show_int n @ '']'') @ doc)
               chunks)
       \<and> (\<forall>(doc, m) \<in> set chunks.
            lesson_number m = None \<and> \<not> sublist ''Lesson'' (course_title m)
              \<longrightarrow> \<not> sublist ''Lesson'' (chunk_header m))"
proof -
  have hdr: "chunk_header m =
     (case lesson_number m of
        None \<Rightarrow> ''['' @ course_title m @ '']''
      | Some n \<Rightarrow> ''['' @ course_title m @ '' - Lesson '' @ show_int n @ '']'')" for m
    by (simp add: chunk_header_def chunk_label_def split: option.splits)
  have "fst (execute tool q c l) = join_blank (map (\<lambda>(doc, m). chunk_header m @ doc) chunks)"
    using assms by (simp add: execute_def)
  moreover have "\<not> sublist ''Lesson'' (chunk_header m)"
    if "lesson_number m = None" "\<not> sublist ''Lesson'' (course_title m)" for m
    using no_Lesson_in_brackets[OF that(2)] that(1) by (simp add: hdr)
  ultimately show ?thesis by (auto simp: hdr)
qed

theorem chunk_header_format_witness:
  "fst (execute \<lparr> store = headers_store, last_sources = [] \<rparr> ''test'' None None)
     = ''[Python Course]chunk content'' @ nl @ nl @ ''[Python Course - Lesson 5]more content''
   \<and> \<not> sublist ''Lesson'' (chunk_header \<lparr> course_title = ''Python Course'', lesson_number = None \<rparr>)"
proof -
  let ?tool = "\<lparr> store = headers_store, last_sources = [] \<rparr>"
  let ?chunks = "[(''chunk content'', \<lparr> course_title = ''Python Course'', lesson_number = None \<rparr>),
                  (''more content'', \<lparr> course_title = ''Python Course'', lesson_number = Some 5 \<rparr>)]"
  have s: "search (store ?tool) ''test'' None None = Matches ?chunks"
    by (simp add: headers_store_def)
  have ne: "?chunks \<noteq> []" by simp
  have free: "\<not> sublist ''Lesson'' ''Python Course''" by (simp add: sublist_code)
  from chunk_header_format[OF s ne] free show ?thesis
    by (simp add: show_int_def show_nat.simps digit_char_def)
qed

text \<open>
  The claim as stated fails for a course whose title contains the word: the header of a
  chunk of the course \<^verbatim>\<open>Lesson Plans\<close>, without lesson number, is \<^verbatim>\<open>[Lesson Plans]\<close>.
\<close>

theorem title_with_Lesson_counterexample:
  "lesson_number \<lparr> course_title = ''Lesson Plans'', lesson_number = None \<rparr> = None
   \<and> fst (execute \<lparr> store = lesson_plans_store, last_sources = [] \<rparr> ''test'' None None)
       = ''[Lesson Plans]chunk content''
   \<and> sublist ''Lesson'' (chunk_header \<lparr> course_title = ''Lesson Plans'', lesson_number = None \<rparr>)"
  by (simp add: tool_simps lesson_plans_store_def sublist_code)

end
